theory Spec2Isabelle
  imports Main
begin

section \<open>The dialog reference of \<^verbatim>\<open>src/lib/dialog/dialog-ref.ts\<close>\<close>

text \<open>
  The file defines one class, \<^verbatim>\<open>MatDialogRef\<close>, and one module variable, the counter
  \<^verbatim>\<open>uniqueId\<close>. The class reacts to three event sources (the container's animation
  stream, the overlay's keydown stream, the location's change stream) and calls methods of
  its collaborators: the overlay, the overlay's position strategy, the container and the
  location subscription. The collaborators are not part of the file, so the model records
  the calls made on them, in order, and receives their events as inputs.
\<close>

subsection \<open>Values exchanged with the collaborators\<close>

text \<open>An animation event of the container; the source reads these two fields only.\<close>

record AnimationEvent =
  phaseName :: string
  toState :: string

record KeyboardEvent =
  keyCode :: nat

text \<open>
  \<^verbatim>\<open>DialogPosition\<close>: four optional offsets (\<open>None\<close> is \<^verbatim>\<open>undefined\<close>). The field
  \<^verbatim>\<open>top\<close> is written \<open>top_pos\<close>, since \<open>top\<close> is a constant of HOL.
\<close>

record DialogPosition =
  top_pos :: "string option"
  bottom :: "string option"
  left :: "string option"
  right :: "string option"

text \<open>The two fields of the container's \<^verbatim>\<open>_config\<close> that the source reads.\<close>

record MatDialogConfig =
  config_disableClose :: "bool option"
  closeOnNavigation :: "bool option"

text \<open>
  The calls the handle makes on its collaborators: \<^verbatim>\<open>_overlayRef.dispose()\<close>,
  \<^verbatim>\<open>_overlayRef.detachBackdrop()\<close>, \<^verbatim>\<open>_overlayRef.updatePosition()\<close>,
  \<^verbatim>\<open>_containerInstance._startExitAnimation()\<close>, \<^verbatim>\<open>_locationChanges.unsubscribe()\<close>
  and the setters of the position strategy, each with the argument it was given.
\<close>

datatype call =
    Dispose
  | DetachBackdrop
  | OverlayUpdatePosition
  | StartExitAnimation
  | Unsubscribe
  | StrategyLeft "string option"
  | StrategyRight "string option"
  | StrategyTop "string option"
  | StrategyBottom "string option"
  | CenterHorizontally
  | CenterVertically
  | StrategyWidth string
  | StrategyHeight string

subsection \<open>JavaScript truthiness\<close>

text \<open>
  A \<^verbatim>\<open>string | undefined\<close> is truthy when it is a non-empty string; a
  \<^verbatim>\<open>boolean | undefined\<close> is truthy when it is \<^verbatim>\<open>true\<close>.
\<close>

definition truthy :: "string option \<Rightarrow> bool" where
  "truthy v = (case v of None \<Rightarrow> False | Some s \<Rightarrow> s \<noteq> [])"

definition truthy_bool :: "bool option \<Rightarrow> bool" where
  "truthy_bool v = (v = Some True)"

subsection \<open>Subjects\<close>

text \<open>
  An RxJS \<^verbatim>\<open>Subject\<close>, as far as the handle uses it: \<^verbatim>\<open>next\<close> delivers a value to
  the subscribers unless the subject has stopped, \<^verbatim>\<open>complete\<close> stops it. The model
  keeps the values delivered so far.
\<close>

record 'v Subject =
  emitted :: "'v list"
  isStopped :: bool

definition Subject_new :: "'v Subject" where
  "Subject_new = \<lparr>emitted = [], isStopped = False\<rparr>"

definition Subject_next :: "'v \<Rightarrow> 'v Subject \<Rightarrow> 'v Subject" where
  "Subject_next v s = (if isStopped s then s else s\<lparr>emitted := emitted s @ [v]\<rparr>)"

definition Subject_complete :: "'v Subject \<Rightarrow> 'v Subject" where
  "Subject_complete s = s\<lparr>isStopped := True\<rparr>"

text \<open>
  A \<^verbatim>\<open>SubscriptionLike\<close>: \<^verbatim>\<open>Subscription.EMPTY\<close>, whose \<^verbatim>\<open>unsubscribe\<close> does
  nothing, or a subscription that is open until it is unsubscribed.
\<close>

datatype subscription = EMPTY | Subscribed | Unsubscribed

fun unsubscribe :: "subscription \<Rightarrow> subscription" where
  "unsubscribe EMPTY = EMPTY"
| "unsubscribe Subscribed = Unsubscribed"
| "unsubscribe Unsubscribed = Unsubscribed"

subsection \<open>The handle\<close>

text \<open>
  The three subscriptions the handle makes on \<^verbatim>\<open>_animationStateChanged\<close>, each a
  \<^verbatim>\<open>filter\<close> followed by \<^verbatim>\<open>take(1)\<close>: two in the constructor, one in every call of
  \<^verbatim>\<open>close\<close>, whose callback keeps the argument \<^verbatim>\<open>dialogResult\<close> of that call.
\<close>

datatype 'r animation_subscription =
    AfterOpenSub
  | AfterClosedSub
  | BeforeCloseSub "'r option"

text \<open>
  The fields of the class (the leading underscore of the private ones dropped, \<^verbatim>\<open>id\<close>
  written \<open>ref_id\<close>), the \<^verbatim>\<open>_id\<close> and \<^verbatim>\<open>_config\<close> of the container, the
  subscriptions pending on the animation stream in the order they were made, and the calls
  made on the collaborators so far. \<open>None\<close> stands for \<^verbatim>\<open>undefined\<close> and \<^verbatim>\<open>null\<close>.
\<close>

record ('c, 'r) MatDialogRef =
  ref_id :: string
  componentInstance :: "'c option"
  disableClose :: "bool option"
  afterOpen :: "unit Subject"
  afterClosed :: "'r option Subject"
  beforeClose :: "'r option Subject"
  result :: "'r option"
  locationChanges :: subscription
  containerInstance_id :: string
  containerInstance_config :: MatDialogConfig
  animationStateChanged_subscriptions :: "'r animation_subscription list"
  calls :: "call list"

subsection \<open>The counter and the default id\<close>

text \<open>
  \<^verbatim>\<open>let uniqueId = 0\<close>. The counter is a JavaScript number that only ever grows by one;
  it is modelled as a natural number, which is exact for the first \<open>2 ^ 53\<close> handles.
\<close>

definition uniqueId_initial :: nat where
  "uniqueId_initial = 0"

text \<open>The decimal numeral that a template literal writes for a number.\<close>

definition digit :: "nat \<Rightarrow> char" where
  "digit d = char_of (48 + d)"

function toString :: "nat \<Rightarrow> string" where
  "toString n = (if n < 10 then [digit n] else toString (n div 10) @ [digit (n mod 10)])"
  by pat_completeness auto
termination
  by (relation "measure (\<lambda>n. n)") auto

declare toString.simps [simp del]

text \<open>
  The constructor. Its arguments are the container's configuration, whether a
  \<^verbatim>\<open>location\<close> was passed, and the optional \<^verbatim>\<open>id\<close>; the default
  \<^verbatim>\<open>`mat-dialog-${uniqueId++}`\<close> is evaluated, and the counter incremented, only when no
  id was passed. The result is the new handle and the new value of the counter.
\<close>

definition id_parameter :: "string option \<Rightarrow> nat \<Rightarrow> string \<times> nat" where
  "id_parameter id_arg uniqueId =
     (case id_arg of
        None \<Rightarrow> (''mat-dialog-'' @ toString uniqueId, uniqueId + 1)
      | Some s \<Rightarrow> (s, uniqueId))"

definition constructor ::
  "MatDialogConfig \<Rightarrow> bool \<Rightarrow> string option \<Rightarrow> nat \<Rightarrow> ('c, 'r) MatDialogRef \<times> nat" where
  "constructor config location id_arg uniqueId =
     (let (new_id, uniqueId') = id_parameter id_arg uniqueId
      in (\<lparr>ref_id = new_id,
           componentInstance = None,
           disableClose = config_disableClose config,
           afterOpen = Subject_new,
           afterClosed = Subject_new,
           beforeClose = Subject_new,
           result = None,
           locationChanges = (if location then Subscribed else EMPTY),
           containerInstance_id = new_id,
           containerInstance_config = config,
           animationStateChanged_subscriptions = [AfterOpenSub, AfterClosedSub],
           calls = []\<rparr>,
          uniqueId'))"

text \<open>Handles constructed one after the other share the counter.\<close>

fun construct_all ::
  "(MatDialogConfig \<times> bool \<times> string option) list \<Rightarrow> nat \<Rightarrow> ('c, 'r) MatDialogRef list \<times> nat" where
  "construct_all [] uniqueId = ([], uniqueId)"
| "construct_all ((config, location, id_arg) # rest) uniqueId =
     (let (h, uniqueId') = constructor config location id_arg uniqueId;
          (hs, uniqueId'') = construct_all rest uniqueId'
      in (h # hs, uniqueId''))"

subsection \<open>Methods and callbacks\<close>

definition call :: "call \<Rightarrow> ('c, 'r) MatDialogRef \<Rightarrow> ('c, 'r) MatDialogRef" where
  "call c h = h\<lparr>calls := calls h @ [c]\<rparr>"

text \<open>
  \<^verbatim>\<open>close(dialogResult?)\<close>: store the result, subscribe to the animation stream, start
  the exit animation.
\<close>

definition close :: "'r option \<Rightarrow> ('c, 'r) MatDialogRef \<Rightarrow> ('c, 'r) MatDialogRef" where
  "close dialogResult h =
     (let h1 = h\<lparr>result := dialogResult\<rparr>;
          h2 = h1\<lparr>animationStateChanged_subscriptions :=
                    animationStateChanged_subscriptions h1 @ [BeforeCloseSub dialogResult]\<rparr>
      in call StartExitAnimation h2)"

text \<open>The \<^verbatim>\<open>filter\<close> of each subscription on the animation stream.\<close>

fun matches :: "'r animation_subscription \<Rightarrow> AnimationEvent \<Rightarrow> bool" where
  "matches AfterOpenSub event = (phaseName event = ''done'' \<and> toState event = ''enter'')"
| "matches AfterClosedSub event = (phaseName event = ''done'' \<and> toState event = ''exit'')"
| "matches (BeforeCloseSub dialogResult) event = (phaseName event = ''start'')"

text \<open>The callback of each subscription, statement by statement.\<close>

fun handler :: "'r animation_subscription \<Rightarrow> ('c, 'r) MatDialogRef \<Rightarrow> ('c, 'r) MatDialogRef" where
  "handler AfterOpenSub h =
     (let h1 = h\<lparr>afterOpen := Subject_next () (afterOpen h)\<rparr>
      in h1\<lparr>afterOpen := Subject_complete (afterOpen h1)\<rparr>)"
| "handler AfterClosedSub h =
     (let h1 = call Dispose h;
          h2 = (call Unsubscribe h1)\<lparr>locationChanges := unsubscribe (locationChanges h1)\<rparr>;
          h3 = h2\<lparr>afterClosed := Subject_next (result h2) (afterClosed h2)\<rparr>;
          h4 = h3\<lparr>afterClosed := Subject_complete (afterClosed h3)\<rparr>
      in h4\<lparr>componentInstance := None\<rparr>)"
| "handler (BeforeCloseSub dialogResult) h =
     (let h1 = h\<lparr>beforeClose := Subject_next dialogResult (beforeClose h)\<rparr>;
          h2 = h1\<lparr>beforeClose := Subject_complete (beforeClose h1)\<rparr>
      in call DetachBackdrop h2)"

text \<open>
  An event on \<^verbatim>\<open>_animationStateChanged\<close>: the subscriptions whose filter accepts it run
  their callbacks in the order they subscribed, and \<^verbatim>\<open>take(1)\<close> ends each of them.
\<close>

definition animationStateChanged ::
  "AnimationEvent \<Rightarrow> ('c, 'r) MatDialogRef \<Rightarrow> ('c, 'r) MatDialogRef" where
  "animationStateChanged event h =
     (let subs = animationStateChanged_subscriptions h;
          h1 = fold handler (filter (\<lambda>s. matches s event) subs) h
      in h1\<lparr>animationStateChanged_subscriptions :=
               filter (\<lambda>s. \<not> matches s event) (animationStateChanged_subscriptions h1)\<rparr>)"

text \<open>
  An event on the overlay's keydown stream. \<^verbatim>\<open>ESCAPE\<close> is a constant of
  \<^verbatim>\<open>@angular/cdk/keycodes\<close>, which is not part of the file: it is a parameter here.
\<close>

definition keydown ::
  "nat \<Rightarrow> KeyboardEvent \<Rightarrow> ('c, 'r) MatDialogRef \<Rightarrow> ('c, 'r) MatDialogRef" where
  "keydown ESCAPE event h =
     (if keyCode event = ESCAPE \<and> \<not> truthy_bool (disableClose h) then close None h else h)"

text \<open>A change of location, delivered while the subscription made in the constructor is open.\<close>

definition locationChange :: "('c, 'r) MatDialogRef \<Rightarrow> ('c, 'r) MatDialogRef" where
  "locationChange h =
     (if locationChanges h = Subscribed
      then (if truthy_bool (closeOnNavigation (containerInstance_config h)) then close None h else h)
      else h)"

text \<open>\<^verbatim>\<open>updatePosition(position?)\<close>; the handle it returns is the handle itself.\<close>

definition updatePosition ::
  "DialogPosition option \<Rightarrow> ('c, 'r) MatDialogRef \<Rightarrow> ('c, 'r) MatDialogRef" where
  "updatePosition position h =
     (let h1 = (case position of
                  None \<Rightarrow> call CenterHorizontally h
                | Some p \<Rightarrow>
                    if truthy (left p) \<or> truthy (right p)
                    then (if truthy (left p) then call (StrategyLeft (left p)) h
                          else call (StrategyRight (right p)) h)
                    else call CenterHorizontally h);
          h2 = (case position of
                  None \<Rightarrow> call CenterVertically h1
                | Some p \<Rightarrow>
                    if truthy (top_pos p) \<or> truthy (bottom p)
                    then (if truthy (top_pos p) then call (StrategyTop (top_pos p)) h1
                          else call (StrategyBottom (bottom p)) h1)
                    else call CenterVertically h1)
      in call OverlayUpdatePosition h2)"

text \<open>\<^verbatim>\<open>updateSize(width = 'auto', height = 'auto')\<close>; it returns the handle itself too.\<close>

definition updateSize ::
  "string option \<Rightarrow> string option \<Rightarrow> ('c, 'r) MatDialogRef \<Rightarrow> ('c, 'r) MatDialogRef" where
  "updateSize width_arg height_arg h =
     (let width = (case width_arg of None \<Rightarrow> ''auto'' | Some w \<Rightarrow> w);
          height = (case height_arg of None \<Rightarrow> ''auto'' | Some v \<Rightarrow> v);
          h1 = call (StrategyHeight height) (call (StrategyWidth width) h)
      in call OverlayUpdatePosition h1)"

subsection \<open>What happens to a handle during its life\<close>

text \<open>
  The inputs a handle receives after its construction: calls of its public methods,
  assignments to its two public mutable fields, and events of the three streams. When the
  collaborators send which event is theirs to decide, so every order of inputs is a run.
\<close>

datatype ('c, 'r) input =
    Close "'r option"
  | UpdatePosition "DialogPosition option"
  | UpdateSize "string option" "string option"
  | SetDisableClose "bool option"
  | SetComponentInstance "'c option"
  | AnimationStateChanged AnimationEvent
  | Keydown KeyboardEvent
  | LocationChange

fun step :: "nat \<Rightarrow> ('c, 'r) input \<Rightarrow> ('c, 'r) MatDialogRef \<Rightarrow> ('c, 'r) MatDialogRef" where
  "step ESCAPE (Close dialogResult) h = close dialogResult h"
| "step ESCAPE (UpdatePosition position) h = updatePosition position h"
| "step ESCAPE (UpdateSize width_arg height_arg) h = updateSize width_arg height_arg h"
| "step ESCAPE (SetDisableClose b) h = h\<lparr>disableClose := b\<rparr>"
| "step ESCAPE (SetComponentInstance c) h = h\<lparr>componentInstance := c\<rparr>"
| "step ESCAPE (AnimationStateChanged event) h = animationStateChanged event h"
| "step ESCAPE (Keydown event) h = keydown ESCAPE event h"
| "step ESCAPE LocationChange h = locationChange h"

definition run ::
  "nat \<Rightarrow> ('c, 'r) input list \<Rightarrow> ('c, 'r) MatDialogRef \<Rightarrow> ('c, 'r) MatDialogRef" where
  "run ESCAPE inputs h = fold (step ESCAPE) inputs h"

subsection \<open>Notions used to state the properties\<close>

text \<open>The calls a method or callback \<open>f\<close> adds when it runs on the handle \<open>h\<close>.\<close>

definition calls_made ::
  "(('c, 'r) MatDialogRef \<Rightarrow> ('c, 'r) MatDialogRef) \<Rightarrow> ('c, 'r) MatDialogRef \<Rightarrow> call list" where
  "calls_made f h = drop (length (calls h)) (calls (f h))"

text \<open>The number a decimal numeral denotes, and the number at the end of a default id.\<close>

definition decimal_value :: "string \<Rightarrow> nat" where
  "decimal_value cs = foldl (\<lambda>a c. 10 * a + (of_char c - 48)) 0 cs"

definition id_number :: "string \<Rightarrow> nat" where
  "id_number s = decimal_value (drop (length ''mat-dialog-'') s)"

text \<open>
  Among the constructor calls \<open>args\<close>, the number of those before position \<open>i\<close> that
  passed no id.
\<close>

definition defaults_before :: "(MatDialogConfig \<times> bool \<times> string option) list \<Rightarrow> nat \<Rightarrow> nat" where
  "defaults_before args i = length (filter (\<lambda>a. snd (snd a) = None) (take i args))"

text \<open>
  The inputs that are an animation event with phase \<^verbatim>\<open>done\<close> and target state
  \<^verbatim>\<open>enter\<close>, and those with phase \<^verbatim>\<open>done\<close> and target state \<^verbatim>\<open>exit\<close>.
\<close>

fun enter_done :: "('c, 'r) input \<Rightarrow> bool" where
  "enter_done (AnimationStateChanged event) = (phaseName event = ''done'' \<and> toState event = ''enter'')"
| "enter_done _ = False"

fun exit_done :: "('c, 'r) input \<Rightarrow> bool" where
  "exit_done (AnimationStateChanged event) = (phaseName event = ''done'' \<and> toState event = ''exit'')"
| "exit_done _ = False"

text \<open>The results of the calls of \<^verbatim>\<open>close\<close> whose subscription is still pending.\<close>

fun pending_results :: "'r animation_subscription list \<Rightarrow> 'r option list" where
  "pending_results [] = []"
| "pending_results (BeforeCloseSub dialogResult # subs) = dialogResult # pending_results subs"
| "pending_results (s # subs) = pending_results subs"

text \<open>The calls each callback makes.\<close>

fun handler_calls :: "'r animation_subscription \<Rightarrow> call list" where
  "handler_calls AfterOpenSub = []"
| "handler_calls AfterClosedSub = [Dispose, Unsubscribe]"
| "handler_calls (BeforeCloseSub dialogResult) = [DetachBackdrop]"

text \<open>
  What holds of a handle from its construction on: the two subscriptions of the constructor
  are pending, once each and before those of \<^verbatim>\<open>close\<close>, exactly as long as their subject
  has not stopped, and the two subjects have emitted nothing before they stop.
\<close>

definition constructor_subscriptions :: "('c, 'r) MatDialogRef \<Rightarrow> 'r animation_subscription list" where
  "constructor_subscriptions h =
     (if isStopped (afterOpen h) then [] else [AfterOpenSub])
     @ (if isStopped (afterClosed h) then [] else [AfterClosedSub])"

definition wired :: "('c, 'r) MatDialogRef \<Rightarrow> bool" where
  "wired h =
     (animationStateChanged_subscriptions h =
        constructor_subscriptions h
        @ map BeforeCloseSub (pending_results (animationStateChanged_subscriptions h))
      \<and> emitted (afterOpen h) = (if isStopped (afterOpen h) then [()] else [])
      \<and> (\<not> isStopped (afterClosed h) \<longrightarrow> emitted (afterClosed h) = []))"

text \<open>A configuration, a handle and events to run the model on.\<close>

definition example_config :: MatDialogConfig where
  "example_config = \<lparr>config_disableClose = Some False, closeOnNavigation = Some True\<rparr>"

definition example_ref :: "(string, string) MatDialogRef" where
  "example_ref = fst (constructor example_config True None uniqueId_initial)"

definition animation_event :: "string \<Rightarrow> string \<Rightarrow> AnimationEvent" where
  "animation_event phase state = \<lparr>phaseName = phase, toState = state\<rparr>"

section \<open>Properties\<close>

subsection \<open>Decimal numerals\<close>

lemma digit_value: "d < 10 \<Longrightarrow> of_char (digit d) - 48 = d"
  by (simp add: digit_def)

lemma decimal_value_toString: "decimal_value (toString n) = n"
proof (induction n rule: toString.induct)
  case (1 n)
  show ?case
  proof (cases "n < 10")
    case True
    then show ?thesis by (simp add: toString.simps [of n] digit_value decimal_value_def)
  next
    case False
    with 1 have "decimal_value (toString (n div 10)) = n div 10" by simp
    with False show ?thesis
      by (simp add: toString.simps [of n] digit_value decimal_value_def)
  qed
qed

subsection \<open>Construction\<close>

lemma ref_id_constructor:
  "ref_id (fst (constructor config location id_arg u)) = fst (id_parameter id_arg u)"
  by (simp add: constructor_def split_def Let_def)

lemma snd_constructor:
  "snd (constructor config location id_arg u :: ('c, 'r) MatDialogRef \<times> nat) =
     snd (id_parameter id_arg u)"
  by (simp add: constructor_def split_def Let_def)

lemma fst_construct_all_Cons:
  "fst (construct_all ((config, location, id_arg) # rest) u :: ('c, 'r) MatDialogRef list \<times> nat) =
     fst (constructor config location id_arg u)
       # fst (construct_all rest (snd (id_parameter id_arg u)))"
  by (simp add: split_def Let_def snd_constructor)

lemma construct_all_default_id:
  "i < length args \<Longrightarrow> snd (snd (args ! i)) = None \<Longrightarrow>
   ref_id (fst (construct_all args u) ! i) = ''mat-dialog-'' @ toString (u + defaults_before args i)"
proof (induction args arbitrary: u i)
  case Nil
  then show ?case by simp
next
  case (Cons a rest)
  obtain config location id_arg where a: "a = (config, location, id_arg)"
    by (cases a) auto
  show ?case
  proof (cases i)
    case 0
    with Cons.prems a show ?thesis
      unfolding a fst_construct_all_Cons
      by (simp add: defaults_before_def ref_id_constructor id_parameter_def)
  next
    case (Suc j)
    with Cons.prems have j: "j < length rest" "snd (snd (rest ! j)) = None"
      by auto
    show ?thesis
      unfolding a fst_construct_all_Cons Suc using Cons.IH [OF j]
      by (cases id_arg) (simp_all add: defaults_before_def id_parameter_def)
  qed
qed

lemma defaults_before_mono:
  assumes ij: "i < j" and j: "j \<le> length args" and d: "snd (snd (args ! i)) = None"
  shows "defaults_before args i < defaults_before args j"
proof -
  obtain k where k: "j = i + Suc k"
    using ij by (metis less_iff_Suc_add add_Suc_right)
  have i: "i < length args"
    using ij j by simp
  have "take j args = take i args @ take (Suc k) (drop i args)"
    unfolding k by (rule take_add)
  also have "drop i args = args ! i # drop (Suc i) args"
    using i by (simp add: Cons_nth_drop_Suc)
  finally show ?thesis
    using d by (simp add: defaults_before_def)
qed

subsection \<open>Fields that callbacks and methods leave alone\<close>

lemma fold_handler_ref_id: "ref_id (fold handler subs h) = ref_id h"
proof (induction subs arbitrary: h)
  case Nil
  show ?case by simp
next
  case (Cons s subs)
  show ?case by (cases s) (simp_all add: Cons.IH Let_def call_def)
qed

lemma ref_id_step: "ref_id (step ESCAPE x h) = ref_id h"
  by (cases x)
    (simp_all add: close_def call_def updatePosition_def updateSize_def animationStateChanged_def
      keydown_def locationChange_def Let_def fold_handler_ref_id split: option.splits)

lemma ref_id_run: "ref_id (run ESCAPE inputs h) = ref_id h"
  unfolding run_def by (induction inputs arbitrary: h) (simp_all add: ref_id_step)

subsection \<open>Callbacks, field by field\<close>

lemma Subject_complete_next_idem:
  "Subject_complete (Subject_next w (Subject_complete (Subject_next v s))) =
     Subject_complete (Subject_next v s)"
  by (simp add: Subject_complete_def Subject_next_def)

lemma fold_handler_result: "result (fold handler subs h) = result h"
proof (induction subs arbitrary: h)
  case Nil
  show ?case by simp
next
  case (Cons s subs)
  show ?case by (cases s) (simp_all add: Cons.IH Let_def call_def)
qed

lemma fold_handler_subscriptions:
  "animationStateChanged_subscriptions (fold handler subs h) = animationStateChanged_subscriptions h"
proof (induction subs arbitrary: h)
  case Nil
  show ?case by simp
next
  case (Cons s subs)
  show ?case by (cases s) (simp_all add: Cons.IH Let_def call_def)
qed

lemma fold_handler_disableClose: "disableClose (fold handler subs h) = disableClose h"
proof (induction subs arbitrary: h)
  case Nil
  show ?case by simp
next
  case (Cons s subs)
  show ?case by (cases s) (simp_all add: Cons.IH Let_def call_def)
qed

lemma fold_handler_afterOpen:
  "afterOpen (fold handler subs h) =
     (if AfterOpenSub \<in> set subs then Subject_complete (Subject_next () (afterOpen h))
      else afterOpen h)"
proof (induction subs arbitrary: h)
  case Nil
  show ?case by simp
next
  case (Cons s subs)
  show ?case
    by (cases s) (simp_all add: Cons.IH Let_def call_def Subject_complete_next_idem)
qed

lemma fold_handler_afterClosed:
  "afterClosed (fold handler subs h) =
     (if AfterClosedSub \<in> set subs then Subject_complete (Subject_next (result h) (afterClosed h))
      else afterClosed h)"
proof (induction subs arbitrary: h)
  case Nil
  show ?case by simp
next
  case (Cons s subs)
  show ?case
    by (cases s) (simp_all add: Cons.IH Let_def call_def Subject_complete_next_idem)
qed

lemma fold_handler_beforeClose:
  "beforeClose (fold handler subs h) =
     (case pending_results subs of
        [] \<Rightarrow> beforeClose h
      | r # rs \<Rightarrow> Subject_complete (Subject_next r (beforeClose h)))"
proof (induction subs arbitrary: h)
  case Nil
  show ?case by simp
next
  case (Cons s subs)
  show ?case
    by (cases s)
      (simp_all add: Cons.IH Let_def call_def Subject_complete_next_idem split: list.splits)
qed

lemma fold_handler_calls:
  "calls (fold handler subs h) = calls h @ concat (map handler_calls subs)"
proof (induction subs arbitrary: h)
  case Nil
  show ?case by simp
next
  case (Cons s subs)
  show ?case by (cases s) (simp_all add: Cons.IH Let_def call_def)
qed


lemma pending_results_append:
  "pending_results (xs @ ys) = pending_results xs @ pending_results ys"
  by (induction xs rule: pending_results.induct) simp_all

lemma pending_results_map: "pending_results (map BeforeCloseSub rs) = rs"
  by (induction rs) simp_all

lemma pending_results_constructor_subscriptions:
  "pending_results (constructor_subscriptions h) = []"
  by (simp add: constructor_subscriptions_def)

lemma wiredI:
  assumes "animationStateChanged_subscriptions h = constructor_subscriptions h @ map BeforeCloseSub rs"
    and "emitted (afterOpen h) = (if isStopped (afterOpen h) then [()] else [])"
    and "\<not> isStopped (afterClosed h) \<Longrightarrow> emitted (afterClosed h) = []"
  shows "wired h"
proof -
  have "pending_results (animationStateChanged_subscriptions h) = rs"
    unfolding assms(1)
    by (simp add: pending_results_append pending_results_map
        pending_results_constructor_subscriptions)
  with assms show ?thesis
    by (simp add: wired_def constructor_subscriptions_def)
qed

lemma wiredD:
  assumes "wired h"
  shows "animationStateChanged_subscriptions h =
           constructor_subscriptions h
           @ map BeforeCloseSub (pending_results (animationStateChanged_subscriptions h))"
    and "emitted (afterOpen h) = (if isStopped (afterOpen h) then [()] else [])"
    and "\<not> isStopped (afterClosed h) \<Longrightarrow> emitted (afterClosed h) = []"
  using assms by (simp_all add: wired_def constructor_subscriptions_def)

lemma wired_constructor: "wired (fst (constructor config location id_arg u))"
  by (simp add: wired_def constructor_subscriptions_def constructor_def split_def Let_def
      Subject_new_def)

lemma wired_call: "wired (call c h) = wired h"
  by (simp add: wired_def constructor_subscriptions_def call_def)

lemma wired_close: "wired h \<Longrightarrow> wired (close r h)"
proof -
  assume w: "wired h"
  let ?rs = "pending_results (animationStateChanged_subscriptions h)"
  show ?thesis
  proof (rule wiredI [where rs = "?rs @ [r]"])
    show "animationStateChanged_subscriptions (close r h) =
        constructor_subscriptions (close r h) @ map BeforeCloseSub (?rs @ [r])"
      using wiredD(1) [OF w]
      by (simp add: close_def call_def Let_def constructor_subscriptions_def)
  qed (use wiredD(2,3) [OF w] in \<open>simp_all add: close_def call_def Let_def\<close>)
qed

lemma wired_mem:
  assumes w: "wired h"
  shows "AfterOpenSub \<in> set (animationStateChanged_subscriptions h) \<longleftrightarrow> \<not> isStopped (afterOpen h)"
    and "AfterClosedSub \<in> set (animationStateChanged_subscriptions h) \<longleftrightarrow> \<not> isStopped (afterClosed h)"
proof -
  have "set (animationStateChanged_subscriptions h) =
      set (constructor_subscriptions h)
        \<union> BeforeCloseSub ` set (pending_results (animationStateChanged_subscriptions h))"
    using arg_cong [OF wiredD(1) [OF w], of set] by simp
  then show "AfterOpenSub \<in> set (animationStateChanged_subscriptions h) \<longleftrightarrow> \<not> isStopped (afterOpen h)"
    and "AfterClosedSub \<in> set (animationStateChanged_subscriptions h) \<longleftrightarrow> \<not> isStopped (afterClosed h)"
    by (auto simp add: constructor_subscriptions_def)
qed

lemma animationStateChanged_fields:
  "animationStateChanged_subscriptions (animationStateChanged e h) =
     filter (\<lambda>s. \<not> matches s e) (animationStateChanged_subscriptions h)"
  "afterOpen (animationStateChanged e h) =
     (if AfterOpenSub \<in> set (animationStateChanged_subscriptions h)
         \<and> phaseName e = ''done'' \<and> toState e = ''enter''
      then Subject_complete (Subject_next () (afterOpen h)) else afterOpen h)"
  "afterClosed (animationStateChanged e h) =
     (if AfterClosedSub \<in> set (animationStateChanged_subscriptions h)
         \<and> phaseName e = ''done'' \<and> toState e = ''exit''
      then Subject_complete (Subject_next (result h) (afterClosed h)) else afterClosed h)"
  "result (animationStateChanged e h) = result h"
  "disableClose (animationStateChanged e h) = disableClose h"
  by (auto simp add: animationStateChanged_def Let_def fold_handler_subscriptions
      fold_handler_afterOpen fold_handler_afterClosed fold_handler_result
      fold_handler_disableClose)

lemma wired_animationStateChanged:
  assumes w: "wired h"
  shows "wired (animationStateChanged e h)"
proof -
  let ?rs = "pending_results (animationStateChanged_subscriptions h)"
  let ?h = "animationStateChanged e h"
  note subs = wiredD(1) [OF w]
  note mem = wired_mem [OF w]
  show ?thesis
  proof (rule wiredI [where rs = "if phaseName e = ''start'' then [] else ?rs"])
    show "animationStateChanged_subscriptions ?h =
        constructor_subscriptions ?h @ map BeforeCloseSub (if phaseName e = ''start'' then [] else ?rs)"
      unfolding animationStateChanged_fields(1)
      apply (subst subs)
      apply (simp add: constructor_subscriptions_def animationStateChanged_fields mem
          Subject_complete_def Subject_next_def filter_map o_def)
      done
    show "emitted (afterOpen ?h) = (if isStopped (afterOpen ?h) then [()] else [])"
      using wiredD(2) [OF w]
      by (simp add: animationStateChanged_fields mem Subject_complete_def Subject_next_def)
    show "emitted (afterClosed ?h) = []" if "\<not> isStopped (afterClosed ?h)"
      using wiredD(3) [OF w] that
      by (simp add: animationStateChanged_fields mem Subject_complete_def Subject_next_def
          split: if_splits)
  qed
qed

lemma wired_fields:
  "wired (h\<lparr>disableClose := b\<rparr>) = wired h"
  "wired (h\<lparr>componentInstance := c\<rparr>) = wired h"
  by (simp_all add: wired_def constructor_subscriptions_def)

lemma wired_step: "wired h \<Longrightarrow> wired (step ESCAPE x h)"
  by (cases x)
    (simp_all add: wired_close wired_animationStateChanged wired_call wired_fields keydown_def
      locationChange_def updatePosition_def updateSize_def Let_def split: option.splits)

lemma wired_run: "wired h \<Longrightarrow> wired (run ESCAPE inputs h)"
  unfolding run_def by (induction inputs arbitrary: h) (simp_all add: wired_step)

subsection \<open>Runs\<close>

lemma calls_madeI: "calls (f h) = calls h @ cs \<Longrightarrow> calls_made f h = cs"
  by (simp add: calls_made_def)

lemma afterOpen_step:
  assumes "wired h"
  shows "afterOpen (step ESCAPE x h) =
     (if enter_done x \<and> \<not> isStopped (afterOpen h)
      then Subject_complete (Subject_next () (afterOpen h)) else afterOpen h)"
  by (cases x)
    (simp_all add: close_def call_def updatePosition_def updateSize_def keydown_def
      locationChange_def Let_def animationStateChanged_fields wired_mem [OF assms]
      split: option.splits)

lemma afterClosed_step:
  assumes "wired h"
  shows "afterClosed (step ESCAPE x h) =
     (if exit_done x \<and> \<not> isStopped (afterClosed h)
      then Subject_complete (Subject_next (result h) (afterClosed h)) else afterClosed h)"
  by (cases x)
    (simp_all add: close_def call_def updatePosition_def updateSize_def keydown_def
      locationChange_def Let_def animationStateChanged_fields wired_mem [OF assms]
      split: option.splits)

lemma afterOpen_stopped_run:
  "wired h \<Longrightarrow>
   isStopped (afterOpen (run ESCAPE inputs h)) = (isStopped (afterOpen h) \<or> list_ex enter_done inputs)"
proof (induction inputs arbitrary: h)
  case Nil
  show ?case by (simp add: run_def)
next
  case (Cons x inputs)
  have "run ESCAPE (x # inputs) h = run ESCAPE inputs (step ESCAPE x h)"
    by (simp add: run_def)
  then show ?case
    using Cons.IH [OF wired_step [OF Cons.prems]]
    by (auto simp add: afterOpen_step [OF Cons.prems] Subject_complete_def)
qed

lemma afterClosed_run_unchanged:
  "wired h \<Longrightarrow> isStopped (afterClosed h) \<or> \<not> list_ex exit_done inputs \<Longrightarrow>
   afterClosed (run ESCAPE inputs h) = afterClosed h"
proof (induction inputs arbitrary: h)
  case Nil
  show ?case by (simp add: run_def)
next
  case (Cons x inputs)
  have r: "run ESCAPE (x # inputs) h = run ESCAPE inputs (step ESCAPE x h)"
    by (simp add: run_def)
  have s: "afterClosed (step ESCAPE x h) = afterClosed h"
    using Cons.prems(2) by (auto simp add: afterClosed_step [OF Cons.prems(1)])
  have "afterClosed (run ESCAPE inputs (step ESCAPE x h)) = afterClosed (step ESCAPE x h)"
    using Cons.prems(2) by (intro Cons.IH wired_step Cons.prems(1)) (auto simp add: s)
  then show ?case
    by (simp add: r s)
qed

lemma afterClosed_stopped_run:
  "wired h \<Longrightarrow>
   isStopped (afterClosed (run ESCAPE inputs h)) = (isStopped (afterClosed h) \<or> list_ex exit_done inputs)"
proof (induction inputs arbitrary: h)
  case Nil
  show ?case by (simp add: run_def)
next
  case (Cons x inputs)
  have "run ESCAPE (x # inputs) h = run ESCAPE inputs (step ESCAPE x h)"
    by (simp add: run_def)
  then show ?case
    using Cons.IH [OF wired_step [OF Cons.prems]]
    by (auto simp add: afterClosed_step [OF Cons.prems] Subject_complete_def)
qed

lemma run_append: "run ESCAPE (xs @ ys) h = run ESCAPE ys (run ESCAPE xs h)"
  by (simp add: run_def)

lemma run_Cons: "run ESCAPE (x # xs) h = run ESCAPE xs (step ESCAPE x h)"
  by (simp add: run_def)

lemma exit_done_matches:
  assumes "phaseName e = ''done''" and "toState e = ''exit''"
  shows "matches s e \<longleftrightarrow> s = AfterClosedSub"
  using assms by (cases s) simp_all

lemma filter_eq_AfterClosedSub:
  "filter (\<lambda>s. s = AfterClosedSub) (constructor_subscriptions h @ map BeforeCloseSub rs) =
     (if isStopped (afterClosed h) then [] else [AfterClosedSub])"
  by (simp add: constructor_subscriptions_def filter_map o_def)


subsection \<open>The id\<close>

text \<open>
  C1, as the code has it. The id of a handle constructed without an id argument is
  \<^verbatim>\<open>mat-dialog-\<close> followed by the decimal numeral of the counter, and the counter starts at
  0 and counts the handles constructed without an id argument: the \<open>i\<close>-th constructor
  call of a process, when it passes no id, gets the number of earlier calls that passed
  none. The prefix is \<^verbatim>\<open>mat-dialog-\<close>, not \<^verbatim>\<open>dialog-\<close>.
\<close>

theorem default_id_format:
  fixes hs :: "('c, 'r) MatDialogRef list"
  assumes "hs = fst (construct_all args uniqueId_initial)"
    and "i < length args" and "snd (snd (args ! i)) = None"
  shows "ref_id (hs ! i) = ''mat-dialog-'' @ toString (defaults_before args i)
         \<and> decimal_value (toString (defaults_before args i)) = defaults_before args i"
  unfolding assms(1)
  using construct_all_default_id [OF assms(2,3), of uniqueId_initial]
  by (simp add: uniqueId_initial_def decimal_value_toString)

theorem default_id_format_witness:
  "ref_id (fst (construct_all
       [(example_config, True, None), (example_config, False, Some ''settings''),
        (example_config, False, None)] uniqueId_initial
          :: (string, string) MatDialogRef list \<times> nat) ! 2) = ''mat-dialog-1''"
proof -
  let ?args = "[(example_config, True, None), (example_config, False, Some ''settings''),
        (example_config, False, None)]"
  have n: "defaults_before ?args 2 = 1"
    by (simp add: defaults_before_def numeral_2_eq_2)
  have s: "toString 1 = ''1''"
    by code_simp
  have "ref_id (fst (construct_all ?args uniqueId_initial
          :: (string, string) MatDialogRef list \<times> nat) ! 2)
      = ''mat-dialog-'' @ toString (defaults_before ?args 2)"
    by (rule default_id_format [OF refl, THEN conjunct1]) simp_all
  then show ?thesis
    by (simp only: n s append.simps)
qed

text \<open>
  The first handle of a process that is constructed without an id argument has the id
  \<^verbatim>\<open>mat-dialog-0\<close>, which is not \<^verbatim>\<open>dialog-0\<close>.
\<close>

theorem default_id_counterexample:
  "ref_id example_ref = ''mat-dialog-0'' \<and> ref_id example_ref \<noteq> ''dialog-0''"
  by code_simp

text \<open>
  C4. Of two handles constructed in one process without an id argument, the later one has
  the greater number in its id, so their ids differ; and no input a handle receives after
  its construction changes its id.
\<close>

theorem default_ids_increase:
  fixes hs :: "('c, 'r) MatDialogRef list"
  assumes "hs = fst (construct_all args u)"
    and "i < j" and "j < length args"
    and "snd (snd (args ! i)) = None" and "snd (snd (args ! j)) = None"
  shows "id_number (ref_id (hs ! i)) < id_number (ref_id (hs ! j))
         \<and> ref_id (hs ! i) \<noteq> ref_id (hs ! j)
         \<and> ref_id (run ESCAPE inputs (hs ! i)) = ref_id (hs ! i)"
proof -
  have i: "i < length args"
    using assms(2,3) by simp
  have idi: "ref_id (hs ! i) = ''mat-dialog-'' @ toString (u + defaults_before args i)"
    unfolding assms(1) using i assms(4) by (rule construct_all_default_id)
  have idj: "ref_id (hs ! j) = ''mat-dialog-'' @ toString (u + defaults_before args j)"
    unfolding assms(1) using assms(3,5) by (rule construct_all_default_id)
  have lt: "defaults_before args i < defaults_before args j"
    using assms(2) less_imp_le [OF assms(3)] assms(4) by (rule defaults_before_mono)
  have numbers: "id_number (ref_id (hs ! i)) < id_number (ref_id (hs ! j))"
    unfolding idi idj using lt by (simp add: id_number_def decimal_value_toString)
  from numbers have "ref_id (hs ! i) \<noteq> ref_id (hs ! j)"
    by auto
  with numbers show ?thesis
    by (simp add: ref_id_run)
qed

theorem default_ids_increase_witness:
  "id_number (ref_id (fst (construct_all
       [(example_config, True, None), (example_config, False, None)] uniqueId_initial
          :: (string, string) MatDialogRef list \<times> nat) ! 0))
     < id_number (ref_id (fst (construct_all
       [(example_config, True, None), (example_config, False, None)] uniqueId_initial
          :: (string, string) MatDialogRef list \<times> nat) ! 1))"
  by (rule default_ids_increase [OF refl, THEN conjunct1]) simp_all

subsection \<open>The notifications\<close>

text \<open>
  C5. After any inputs whatever, the \<^verbatim>\<open>afterOpen\<close> subject of a handle has emitted once if
  an animation event with phase \<^verbatim>\<open>done\<close> and target state \<^verbatim>\<open>enter\<close> was among them, and
  nothing otherwise, and it has stopped in exactly the first case. As this holds of every
  list of inputs, it holds before the first such event (nothing emitted), right after it
  (one emission, stopped) and after any later events, matching or not (still one emission).
\<close>

theorem afterOpen_emits_once:
  fixes h0 :: "('c, 'r) MatDialogRef"
  assumes "h0 = fst (constructor config location id_arg u)"
  shows "emitted (afterOpen (run ESCAPE inputs h0)) = (if list_ex enter_done inputs then [()] else [])
         \<and> isStopped (afterOpen (run ESCAPE inputs h0)) = list_ex enter_done inputs"
proof -
  have w: "wired h0"
    unfolding assms by (rule wired_constructor)
  have "\<not> isStopped (afterOpen h0)"
    unfolding assms by (simp add: constructor_def split_def Let_def Subject_new_def)
  then have s: "isStopped (afterOpen (run ESCAPE inputs h0)) = list_ex enter_done inputs"
    by (simp add: afterOpen_stopped_run [OF w])
  show ?thesis
    using wiredD(2) [OF wired_run [OF w, of ESCAPE inputs]] s by simp
qed


theorem afterOpen_emits_once_witness:
  "emitted (afterOpen (run 27
       [AnimationStateChanged (animation_event ''start'' ''enter''),
        AnimationStateChanged (animation_event ''done'' ''enter''),
        AnimationStateChanged (animation_event ''done'' ''enter'')] example_ref)) = [()]
   \<and> emitted (afterOpen (run 27
       [AnimationStateChanged (animation_event ''start'' ''enter'')] example_ref)) = []"
  using afterOpen_emits_once [OF example_ref_def, where ESCAPE = 27 and inputs =
      "[AnimationStateChanged (animation_event ''start'' ''enter''),
        AnimationStateChanged (animation_event ''done'' ''enter''),
        AnimationStateChanged (animation_event ''done'' ''enter'')]"]
    afterOpen_emits_once [OF example_ref_def, where ESCAPE = 27 and inputs =
      "[AnimationStateChanged (animation_event ''start'' ''enter'')]"]
  by (simp add: animation_event_def)

text \<open>
  C6. When the first animation event with phase \<^verbatim>\<open>done\<close> and target state \<^verbatim>\<open>exit\<close>
  reaches a handle, whatever it received before, the handle calls \<^verbatim>\<open>dispose\<close> on the
  overlay and \<^verbatim>\<open>unsubscribe\<close> on the location subscription, which is not open
  afterwards, \<^verbatim>\<open>afterClosed\<close> emits the stored result, as its only value, and stops, and
  \<^verbatim>\<open>componentInstance\<close> is null. A later such event changes nothing.
\<close>

theorem exit_done_effects:
  fixes h0 :: "('c, 'r) MatDialogRef"
  assumes "h0 = fst (constructor config location id_arg u)"
    and "h = run ESCAPE pre h0"
    and "phaseName e = ''done''" and "toState e = ''exit''"
  shows "(\<not> list_ex exit_done pre \<longrightarrow>
            calls_made (animationStateChanged e) h = [Dispose, Unsubscribe]
            \<and> locationChanges (animationStateChanged e h) \<noteq> Subscribed
            \<and> emitted (afterClosed (animationStateChanged e h)) = [result h]
            \<and> isStopped (afterClosed (animationStateChanged e h))
            \<and> componentInstance (animationStateChanged e h) = None)
         \<and> (list_ex exit_done pre \<longrightarrow> animationStateChanged e h = h)"
proof -
  have w0: "wired h0"
    unfolding assms(1) by (rule wired_constructor)
  have fresh: "afterClosed h0 = Subject_new"
    unfolding assms(1) by (simp add: constructor_def split_def Let_def)
  have w: "wired h"
    unfolding assms(2) using w0 by (rule wired_run)
  note m = exit_done_matches [OF assms(3,4)]
  have matching: "filter (\<lambda>s. matches s e) (animationStateChanged_subscriptions h) =
      (if isStopped (afterClosed h) then [] else [AfterClosedSub])"
    unfolding m by (subst wiredD(1) [OF w]) (rule filter_eq_AfterClosedSub)
  show ?thesis
  proof (intro conjI impI)
    assume "\<not> list_ex exit_done pre"
    then have a: "afterClosed h = Subject_new"
      unfolding assms(2) using afterClosed_run_unchanged [OF w0, of pre ESCAPE] fresh by simp
    then have open_: "\<not> isStopped (afterClosed h)"
      by (simp add: Subject_new_def)
    show "calls_made (animationStateChanged e) h = [Dispose, Unsubscribe]"
      by (rule calls_madeI)
        (simp add: animationStateChanged_def Let_def matching open_ call_def)
    show "locationChanges (animationStateChanged e h) \<noteq> Subscribed"
      by (cases "locationChanges h")
        (simp_all add: animationStateChanged_def Let_def matching open_ call_def)
    show "emitted (afterClosed (animationStateChanged e h)) = [result h]"
      by (simp add: animationStateChanged_fields wired_mem [OF w] assms(3,4) a
          Subject_new_def Subject_next_def Subject_complete_def)
    show "isStopped (afterClosed (animationStateChanged e h))"
      by (simp add: animationStateChanged_fields wired_mem [OF w] assms(3,4) a
          Subject_new_def Subject_next_def Subject_complete_def)
    show "componentInstance (animationStateChanged e h) = None"
      by (simp add: animationStateChanged_def Let_def matching open_ call_def)
  next
    assume "list_ex exit_done pre"
    then have "isStopped (afterClosed h)"
      unfolding assms(2) by (simp add: afterClosed_stopped_run [OF w0])
    then have none: "filter (\<lambda>s. matches s e) (animationStateChanged_subscriptions h) = []"
      by (simp add: matching)
    then have "filter (\<lambda>s. \<not> matches s e) (animationStateChanged_subscriptions h)
        = animationStateChanged_subscriptions h"
      by (simp add: filter_empty_conv filter_id_conv)
    with none show "animationStateChanged e h = h"
      by (simp add: animationStateChanged_def Let_def)
  qed
qed

theorem exit_done_effects_witness:
  "calls_made (animationStateChanged (animation_event ''done'' ''exit''))
       (run 27 [SetComponentInstance (Some ''component''), Close (Some ''ok'')] example_ref)
     = [Dispose, Unsubscribe]
   \<and> emitted (afterClosed (animationStateChanged (animation_event ''done'' ''exit'')
       (run 27 [SetComponentInstance (Some ''component''), Close (Some ''ok'')] example_ref)))
     = [Some ''ok'']
   \<and> componentInstance (animationStateChanged (animation_event ''done'' ''exit'')
       (run 27 [SetComponentInstance (Some ''component''), Close (Some ''ok'')] example_ref))
     = None"
proof -
  have r: "result (run 27 [SetComponentInstance (Some ''component''), Close (Some ''ok'')]
      example_ref) = Some ''ok''"
    by (simp add: run_def close_def call_def)
  show ?thesis
    using exit_done_effects [OF example_ref_def refl,
        where e = "animation_event ''done'' ''exit''" and ESCAPE = 27
          and pre = "[SetComponentInstance (Some ''component''), Close (Some ''ok'')]"]
    by (simp add: animation_event_def r)
qed

subsection \<open>Closing\<close>

lemma start_pending_results:
  "phaseName e = ''start'' \<Longrightarrow>
   pending_results (filter (\<lambda>s. matches s e) subs) = pending_results subs"
  by (induction subs rule: pending_results.induct) simp_all

lemma start_handler_calls:
  "phaseName e = ''start'' \<Longrightarrow>
   concat (map handler_calls (filter (\<lambda>s. matches s e) subs)) =
     replicate (length (pending_results subs)) DetachBackdrop"
  by (induction subs rule: pending_results.induct) simp_all

lemma start_remaining:
  "phaseName e = ''start'' \<Longrightarrow>
   pending_results (filter (\<lambda>s. \<not> matches s e) subs) = []"
  by (induction subs rule: pending_results.induct) simp_all

lemma not_start_pending_results:
  "phaseName e \<noteq> ''start'' \<Longrightarrow>
   pending_results (filter (\<lambda>s. matches s e) subs) = []"
  by (induction subs rule: pending_results.induct) simp_all

lemma not_start_remaining:
  "phaseName e \<noteq> ''start'' \<Longrightarrow>
   pending_results (filter (\<lambda>s. \<not> matches s e) subs) = pending_results subs"
  by (induction subs rule: pending_results.induct) simp_all

lemma not_start_handler_calls:
  "phaseName e \<noteq> ''start'' \<Longrightarrow>
   DetachBackdrop \<notin> set (concat (map handler_calls (filter (\<lambda>s. matches s e) subs)))"
  by (induction subs rule: pending_results.induct) simp_all

lemma animationStateChanged_calls:
  "calls (animationStateChanged e h) =
     calls h @ concat (map handler_calls
       (filter (\<lambda>s. matches s e) (animationStateChanged_subscriptions h)))"
  by (simp add: animationStateChanged_def Let_def fold_handler_calls)

lemma animationStateChanged_beforeClose:
  "beforeClose (animationStateChanged e h) =
     (case pending_results (filter (\<lambda>s. matches s e) (animationStateChanged_subscriptions h)) of
        [] \<Rightarrow> beforeClose h
      | r # rs \<Rightarrow> Subject_complete (Subject_next r (beforeClose h)))"
  by (simp add: animationStateChanged_def Let_def fold_handler_beforeClose)

lemma result_step_fields:
  "result (close r h) = r"
  "result (updatePosition position h) = result h"
  "result (updateSize width_arg height_arg h) = result h"
  by (simp_all add: close_def updatePosition_def updateSize_def call_def Let_def
      split: option.splits)

text \<open>
  C2, as the code has it. A call \<^verbatim>\<open>close(r)\<close> stores \<open>r\<close> as the result, adds one
  subscription to the animation stream and calls \<^verbatim>\<open>_startExitAnimation\<close> on the container.
  The subscription filters on the phase alone: at the next event with phase \<^verbatim>\<open>start\<close>,
  whatever its target state, the callbacks of all pending calls of \<^verbatim>\<open>close\<close> run, oldest
  first. Each calls \<^verbatim>\<open>next\<close> and \<^verbatim>\<open>complete\<close> on \<^verbatim>\<open>beforeClose\<close>, so that the subject
  stops and, if it had not stopped before, emits the result of the oldest pending call
  (which is \<open>r\<close> when no earlier call is pending); and each calls \<^verbatim>\<open>detachBackdrop\<close> on the
  overlay, and nothing else. No subscription of \<^verbatim>\<open>close\<close> is pending afterwards. An event
  with another phase leaves \<^verbatim>\<open>beforeClose\<close>, the backdrop and the pending calls as they were.
\<close>

theorem close_effects:
  "result (close r h) = r
   \<and> calls_made (close r) h = [StartExitAnimation]
   \<and> animationStateChanged_subscriptions (close r h)
       = animationStateChanged_subscriptions h @ [BeforeCloseSub r]
   \<and> (phaseName e = ''start'' \<longrightarrow>
        beforeClose (animationStateChanged e (close r h))
          = Subject_complete (Subject_next
              (hd (pending_results (animationStateChanged_subscriptions h) @ [r])) (beforeClose h))
        \<and> calls_made (animationStateChanged e) (close r h)
          = replicate (Suc (length (pending_results (animationStateChanged_subscriptions h))))
              DetachBackdrop
        \<and> pending_results (animationStateChanged_subscriptions
              (animationStateChanged e (close r h))) = [])
   \<and> (phaseName e \<noteq> ''start'' \<longrightarrow>
        beforeClose (animationStateChanged e (close r h)) = beforeClose h
        \<and> DetachBackdrop \<notin> set (calls_made (animationStateChanged e) (close r h))
        \<and> pending_results (animationStateChanged_subscriptions
              (animationStateChanged e (close r h)))
          = pending_results (animationStateChanged_subscriptions h) @ [r])"
proof -
  let ?subs = "animationStateChanged_subscriptions h"
  have subs: "animationStateChanged_subscriptions (close r h) = ?subs @ [BeforeCloseSub r]"
    and b: "beforeClose (close r h) = beforeClose h"
    and res: "result (close r h) = r"
    and c: "calls (close r h) = calls h @ [StartExitAnimation]"
    by (simp_all add: close_def call_def Let_def)
  have made: "calls_made (close r) h = [StartExitAnimation]"
    using c by (simp add: calls_made_def)
  have p: "pending_results (?subs @ [BeforeCloseSub r]) = pending_results ?subs @ [r]"
    by (simp add: pending_results_append)
  have started: "beforeClose (animationStateChanged e (close r h))
          = Subject_complete (Subject_next (hd (pending_results ?subs @ [r])) (beforeClose h))
        \<and> calls_made (animationStateChanged e) (close r h)
          = replicate (Suc (length (pending_results ?subs))) DetachBackdrop
        \<and> pending_results (animationStateChanged_subscriptions
              (animationStateChanged e (close r h))) = []"
    if s: "phaseName e = ''start''"
  proof (intro conjI)
    show "beforeClose (animationStateChanged e (close r h))
        = Subject_complete (Subject_next (hd (pending_results ?subs @ [r])) (beforeClose h))"
      unfolding animationStateChanged_beforeClose start_pending_results [OF s] subs p b
      by (cases "pending_results ?subs") simp_all
    show "calls_made (animationStateChanged e) (close r h)
        = replicate (Suc (length (pending_results ?subs))) DetachBackdrop"
      unfolding calls_made_def animationStateChanged_calls start_handler_calls [OF s] subs p
      by simp
    show "pending_results (animationStateChanged_subscriptions
        (animationStateChanged e (close r h))) = []"
      unfolding animationStateChanged_fields(1) by (rule start_remaining [OF s])
  qed
  have other: "beforeClose (animationStateChanged e (close r h)) = beforeClose h
        \<and> DetachBackdrop \<notin> set (calls_made (animationStateChanged e) (close r h))
        \<and> pending_results (animationStateChanged_subscriptions
              (animationStateChanged e (close r h))) = pending_results ?subs @ [r]"
    if s: "phaseName e \<noteq> ''start''"
  proof (intro conjI)
    show "beforeClose (animationStateChanged e (close r h)) = beforeClose h"
      unfolding animationStateChanged_beforeClose not_start_pending_results [OF s] b
      by simp
    show "DetachBackdrop \<notin> set (calls_made (animationStateChanged e) (close r h))"
      unfolding calls_made_def animationStateChanged_calls
      using not_start_handler_calls [OF s] by simp
    show "pending_results (animationStateChanged_subscriptions
        (animationStateChanged e (close r h))) = pending_results ?subs @ [r]"
      unfolding animationStateChanged_fields(1) not_start_remaining [OF s] subs p ..
  qed
  from res made subs started other show ?thesis
    by blast
qed

theorem close_effects_witness:
  "emitted (beforeClose (animationStateChanged (animation_event ''start'' ''exit'')
       (close (Some ''ok'') example_ref))) = [Some ''ok'']
   \<and> isStopped (beforeClose (animationStateChanged (animation_event ''start'' ''exit'')
       (close (Some ''ok'') example_ref)))
   \<and> calls_made (animationStateChanged (animation_event ''start'' ''exit''))
       (close (Some ''ok'') example_ref) = [DetachBackdrop]"
  using close_effects [of "Some ''ok''" example_ref "animation_event ''start'' ''exit''"]
  by (simp add: animation_event_def example_ref_def constructor_def split_def Let_def
      Subject_new_def Subject_next_def Subject_complete_def)

text \<open>
  The subscription of \<^verbatim>\<open>close\<close> also accepts the start of the enter animation: the
  result is emitted and the backdrop detached at an event with phase \<^verbatim>\<open>start\<close> and target
  state \<^verbatim>\<open>enter\<close>.
\<close>

theorem close_filter_counterexample:
  "matches (BeforeCloseSub (Some ''ok'')) (animation_event ''start'' ''enter'')
   \<and> emitted (beforeClose (animationStateChanged (animation_event ''start'' ''enter'')
       (close (Some ''ok'') example_ref))) = [Some ''ok'']
   \<and> calls_made (animationStateChanged (animation_event ''start'' ''enter''))
       (close (Some ''ok'') example_ref) = [DetachBackdrop]"
  by code_simp

text \<open>
  C3, as the code has it. The result is not written once: every call of \<^verbatim>\<open>close\<close>
  overwrites it, also the calls without argument made for an Escape key or a change of
  location, which store \<^verbatim>\<open>undefined\<close>. The other methods and the animation events leave it
  as it is. The value \<^verbatim>\<open>afterClosed\<close> emits, at the first animation event with phase
  \<^verbatim>\<open>done\<close> and target state \<^verbatim>\<open>exit\<close>, is the result stored at that moment, and it is the
  only value \<^verbatim>\<open>afterClosed\<close> ever emits, whatever the handle receives later.
\<close>

theorem result_last_close:
  fixes h0 :: "('c, 'r) MatDialogRef"
  assumes "h0 = fst (constructor config location id_arg u)"
    and "\<not> list_ex exit_done pre" and "exit_done x"
  shows "result (close r h) = r
    \<and> result (updatePosition position h) = result h
    \<and> result (updateSize width_arg height_arg h) = result h
    \<and> result (animationStateChanged e h) = result h
    \<and> result (keydown ESCAPE k h)
        = (if keyCode k = ESCAPE \<and> \<not> truthy_bool (disableClose h) then None else result h)
    \<and> result (locationChange h)
        = (if locationChanges h = Subscribed
              \<and> truthy_bool (closeOnNavigation (containerInstance_config h))
           then None else result h)
    \<and> emitted (afterClosed (run ESCAPE (pre @ x # post) h0)) = [result (run ESCAPE pre h0)]"
proof -
  have w0: "wired h0"
    unfolding assms(1) by (rule wired_constructor)
  have fresh: "afterClosed h0 = Subject_new"
    unfolding assms(1) by (simp add: constructor_def split_def Let_def)
  let ?h = "run ESCAPE pre h0"
  have w: "wired ?h"
    using w0 by (rule wired_run)
  have a: "afterClosed ?h = Subject_new"
    using afterClosed_run_unchanged [OF w0, of pre ESCAPE] assms(2) fresh by simp
  have s: "afterClosed (step ESCAPE x ?h) = \<lparr>emitted = [result ?h], isStopped = True\<rparr>"
    using assms(3)
    by (simp add: afterClosed_step [OF w] a Subject_new_def Subject_next_def
        Subject_complete_def)
  have "afterClosed (run ESCAPE post (step ESCAPE x ?h)) = afterClosed (step ESCAPE x ?h)"
    by (rule afterClosed_run_unchanged [OF wired_step [OF w]]) (simp add: s)
  then have "emitted (afterClosed (run ESCAPE (pre @ x # post) h0)) = [result ?h]"
    by (simp add: run_append run_Cons s)
  moreover have "result (keydown ESCAPE k h)
        = (if keyCode k = ESCAPE \<and> \<not> truthy_bool (disableClose h) then None else result h)"
    by (simp add: keydown_def result_step_fields)
  moreover have "result (locationChange h)
        = (if locationChanges h = Subscribed
              \<and> truthy_bool (closeOnNavigation (containerInstance_config h))
           then None else result h)"
    by (simp add: locationChange_def result_step_fields)
  ultimately show ?thesis
    by (simp add: result_step_fields animationStateChanged_fields)
qed

theorem result_last_close_witness:
  "emitted (afterClosed (run 27
       ([Close (Some ''a''), Close (Some ''b'')]
          @ AnimationStateChanged (animation_event ''done'' ''exit'') # [Close (Some ''c'')])
       example_ref)) = [Some ''b'']"
proof -
  have r: "result (run 27 [Close (Some ''a''), Close (Some ''b'')] example_ref) = Some ''b''"
    by (simp add: run_def close_def call_def)
  show ?thesis
    using result_last_close [OF example_ref_def,
        where pre = "[Close (Some ''a''), Close (Some ''b'')]"
          and x = "AnimationStateChanged (animation_event ''done'' ''exit'')"
          and post = "[Close (Some ''c'')]" and ESCAPE = 27,
        THEN conjunct2, THEN conjunct2, THEN conjunct2, THEN conjunct2, THEN conjunct2,
        THEN conjunct2]
    by (simp add: animation_event_def r)
qed

text \<open>
  A second call of \<^verbatim>\<open>close\<close>, made before the exit animation is done and so before
  \<^verbatim>\<open>afterClosed\<close> has emitted, replaces the result of the first, and \<^verbatim>\<open>afterClosed\<close> then
  emits the second result.
\<close>

theorem result_overwritten_counterexample:
  "result (close (Some ''a'') example_ref) = Some ''a''
   \<and> emitted (afterClosed (close (Some ''b'') (close (Some ''a'') example_ref))) = []
   \<and> result (close (Some ''b'') (close (Some ''a'') example_ref)) = Some ''b''
   \<and> emitted (afterClosed (animationStateChanged (animation_event ''done'' ''exit'')
       (close (Some ''b'') (close (Some ''a'') example_ref)))) = [Some ''b'']"
  by code_simp

text \<open>
  C7. A keydown event whose key code is \<^verbatim>\<open>ESCAPE\<close>, delivered while \<^verbatim>\<open>disableClose\<close> is
  not true, does what one call \<^verbatim>\<open>close()\<close> does: the result is \<^verbatim>\<open>undefined\<close> and the exit
  animation is started once. Any other keydown event, and any keydown event delivered while
  \<^verbatim>\<open>disableClose\<close> is true, leaves the handle as it is.
\<close>

theorem escape_closes:
  "(keyCode k = ESCAPE \<and> \<not> truthy_bool (disableClose h) \<longrightarrow>
      keydown ESCAPE k h = close None h
      \<and> calls_made (keydown ESCAPE k) h = [StartExitAnimation]
      \<and> result (keydown ESCAPE k h) = None)
   \<and> (keyCode k \<noteq> ESCAPE \<or> truthy_bool (disableClose h) \<longrightarrow> keydown ESCAPE k h = h)"
  by (simp add: keydown_def calls_made_def close_def call_def Let_def)

theorem escape_closes_witness:
  "keydown 27 \<lparr>keyCode = 27\<rparr> example_ref = close None example_ref
   \<and> calls_made (keydown 27 \<lparr>keyCode = 27\<rparr>) example_ref = [StartExitAnimation]
   \<and> keydown 27 \<lparr>keyCode = 27\<rparr> (example_ref\<lparr>disableClose := Some True\<rparr>)
       = example_ref\<lparr>disableClose := Some True\<rparr>
   \<and> keydown 27 \<lparr>keyCode = 13\<rparr> example_ref = example_ref"
  using escape_closes [of "\<lparr>keyCode = 27\<rparr>" 27 example_ref]
    escape_closes [of "\<lparr>keyCode = 27\<rparr>" 27 "example_ref\<lparr>disableClose := Some True\<rparr>"]
    escape_closes [of "\<lparr>keyCode = 13\<rparr>" 27 example_ref]
  by (simp add: truthy_bool_def example_ref_def constructor_def split_def Let_def
      example_config_def)

subsection \<open>Position and size\<close>

lemma updatePosition_calls_made:
  "calls_made (updatePosition position) h =
     [case position of None \<Rightarrow> CenterHorizontally
      | Some p \<Rightarrow> if truthy (left p) then StrategyLeft (left p)
          else if truthy (right p) then StrategyRight (right p) else CenterHorizontally,
      case position of None \<Rightarrow> CenterVertically
      | Some p \<Rightarrow> if truthy (top_pos p) then StrategyTop (top_pos p)
          else if truthy (bottom p) then StrategyBottom (bottom p) else CenterVertically,
      OverlayUpdatePosition]"
  by (cases position) (simp_all add: updatePosition_def call_def Let_def calls_made_def)

text \<open>
  C8. \<^verbatim>\<open>updatePosition\<close> makes three calls and changes nothing else of the handle, which is
  what it returns. The first call is \<^verbatim>\<open>left\<close> with the left offset when that is given,
  else \<^verbatim>\<open>right\<close> with the right offset when that is given, else
  \<^verbatim>\<open>centerHorizontally\<close>; the second is \<^verbatim>\<open>top\<close>, \<^verbatim>\<open>bottom\<close> or \<^verbatim>\<open>centerVertically\<close> in
  the same way; the third is \<^verbatim>\<open>updatePosition\<close> on the overlay. An offset is given when it
  is truthy, that is, a string that is not empty; without a position both axes are centred.
\<close>

theorem updatePosition_anchors:
  "updatePosition None h =
     h\<lparr>calls := calls h @ [CenterHorizontally, CenterVertically, OverlayUpdatePosition]\<rparr>
   \<and> updatePosition (Some p) h =
     h\<lparr>calls := calls h @
       [if truthy (left p) then StrategyLeft (left p)
        else if truthy (right p) then StrategyRight (right p) else CenterHorizontally,
        if truthy (top_pos p) then StrategyTop (top_pos p)
        else if truthy (bottom p) then StrategyBottom (bottom p) else CenterVertically,
        OverlayUpdatePosition]\<rparr>"
  by (simp add: updatePosition_def call_def Let_def)

theorem updatePosition_anchors_witness:
  "calls_made (updatePosition
       (Some \<lparr>top_pos = None, bottom = None, left = Some ''10px'', right = Some ''5px''\<rparr>))
     example_ref = [StrategyLeft (Some ''10px''), CenterVertically, OverlayUpdatePosition]"
  using updatePosition_anchors [of example_ref
      "\<lparr>top_pos = None, bottom = None, left = Some ''10px'', right = Some ''5px''\<rparr>"]
  by (simp add: calls_made_def truthy_def)

text \<open>
  C9. \<^verbatim>\<open>updateSize\<close> calls \<^verbatim>\<open>width\<close> and \<^verbatim>\<open>height\<close> on the position strategy, with
  \<^verbatim>\<open>auto\<close> for an argument that is not passed, then \<^verbatim>\<open>updatePosition\<close> on the overlay,
  once, and changes nothing else of the handle, which is what it returns.
\<close>

theorem updateSize_sets_both:
  "updateSize width_arg height_arg h =
     h\<lparr>calls := calls h @
       [StrategyWidth (case width_arg of None \<Rightarrow> ''auto'' | Some w \<Rightarrow> w),
        StrategyHeight (case height_arg of None \<Rightarrow> ''auto'' | Some v \<Rightarrow> v),
        OverlayUpdatePosition]\<rparr>
   \<and> count_list (calls_made (updateSize width_arg height_arg) h) OverlayUpdatePosition = 1"
  by (simp add: updateSize_def call_def Let_def calls_made_def)

theorem updateSize_sets_both_witness:
  "calls_made (updateSize (Some ''200px'') None) example_ref
     = [StrategyWidth ''200px'', StrategyHeight ''auto'', OverlayUpdatePosition]"
  using updateSize_sets_both [of "Some ''200px''" None example_ref]
  by (simp add: calls_made_def)

text \<open>
  C10. With an empty left offset the first call of \<^verbatim>\<open>updatePosition\<close> is \<^verbatim>\<open>right\<close> when
  the right offset is a non-empty string and \<^verbatim>\<open>centerHorizontally\<close> otherwise; with an
  empty top offset the second call is \<^verbatim>\<open>bottom\<close> or \<^verbatim>\<open>centerVertically\<close> in the same way;
  and no call of \<^verbatim>\<open>updatePosition\<close> passes an empty string to \<^verbatim>\<open>left\<close>, \<^verbatim>\<open>right\<close>,
  \<^verbatim>\<open>top\<close> or \<^verbatim>\<open>bottom\<close>.
\<close>

theorem empty_offset_never_anchors:
  "length (calls_made (updatePosition position) h) = 3
   \<and> (left p = Some [] \<longrightarrow>
        calls_made (updatePosition (Some p)) h ! 0
          = (if truthy (right p) then StrategyRight (right p) else CenterHorizontally))
   \<and> (top_pos p = Some [] \<longrightarrow>
        calls_made (updatePosition (Some p)) h ! 1
          = (if truthy (bottom p) then StrategyBottom (bottom p) else CenterVertically))
   \<and> StrategyLeft (Some []) \<notin> set (calls_made (updatePosition position) h)
   \<and> StrategyRight (Some []) \<notin> set (calls_made (updatePosition position) h)
   \<and> StrategyTop (Some []) \<notin> set (calls_made (updatePosition position) h)
   \<and> StrategyBottom (Some []) \<notin> set (calls_made (updatePosition position) h)"
  unfolding updatePosition_calls_made
  by (cases position) (auto simp add: truthy_def eq_commute [of "Some []"])

theorem empty_offset_never_anchors_witness:
  "calls_made (updatePosition
       (Some \<lparr>top_pos = Some '''', bottom = None, left = Some '''', right = Some ''5px''\<rparr>))
     example_ref ! 0 = StrategyRight (Some ''5px'')
   \<and> calls_made (updatePosition
       (Some \<lparr>top_pos = Some '''', bottom = None, left = Some '''', right = Some ''5px''\<rparr>))
     example_ref ! 1 = CenterVertically"
  using empty_offset_never_anchors [of
      "Some \<lparr>top_pos = Some '''', bottom = None, left = Some '''', right = Some ''5px''\<rparr>"
      example_ref
      "\<lparr>top_pos = Some '''', bottom = None, left = Some '''', right = Some ''5px''\<rparr>"]
  by (simp add: truthy_def)

end
